theory Spec2Isabelle
  imports Main "HOL-Library.AList" "HOL-Library.Sublist"
begin

section \<open>The Spark connector of Hue: notebook/connectors/spark_shell.py\<close>

text \<open>
  The connector (class \<open>SparkApi\<close>) is a stateful client of a remote Livy service. Its
  methods are modelled as functions that take the world before the call and return the
  outcome together with the world after it. The world holds the state of the remote
  service, the session entries of the user's profile (\<open>self.user.profile.data\<close>) and a
  chronological trace of every effect: each call to the remote service with its answer,
  each \<open>time.sleep\<close>, each log line (but for the debug lines of \<open>get_livy_props\<close>)
  and each access to the profile. An exception is the \<open>Inl\<close> branch of the outcome.
  A leading underscore of a method name is dropped. \<open>get_api()\<close> only builds the client
  and \<open>rewrite_user\<close> leaves the user name as it is; neither appears in the trace.
\<close>

subsection \<open>Values, exceptions and the answers of the remote service\<close>

text \<open>JSON-like Python values: \<open>None\<close>, integers, strings, lists and dicts (in insertion order).\<close>

datatype pyval =
    VNone
  | VInt int
  | VStr string
  | VList "pyval list"
  | VDict "(pyval \<times> pyval) list"

text \<open>
  The value of an \<open>'id'\<close> entry: \<open>None\<close> or the integer issued by the service.
\<close>

type_synonym sid = "int option"

text \<open>
  Exceptions. \<open>RestException code s\<close> carries the HTTP code and \<open>s = str(e)\<close>;
  \<open>OtherException s\<close> is any other exception a call to the service may raise, with its
  \<open>str(e)\<close>. \<open>SessionExpired\<close>, \<open>QueryError\<close> and \<open>PopupException\<close> are the
  connector's own; the remaining ones are raised by the Python runtime.
\<close>

datatype exn =
    RestException int string
  | OtherException string
  | SessionExpired exn
  | QueryError string
  | PopupException string
  | KeyError string
  | TypeError string
  | AttributeError string

text \<open>One entry of \<open>SparkConfiguration.PROPERTIES\<close>, and of the stored \<open>'properties'\<close>.\<close>

record property =
  name :: string
  nice_name :: string
  help_text :: string
  ptype :: string
  is_yarn :: bool
  multiple :: bool
  defaultValue :: pyval
  pvalue :: pyval

text \<open>
  The session info kept in the profile and passed around by the notebook:
  \<open>{'type': .., 'id': .., 'properties': ..}\<close>.
\<close>

record session_info =
  s_type :: string
  s_id :: sid
  s_properties :: "property list"

text \<open>The answer of \<open>get_session\<close>: the code reads \<open>['state']\<close> and \<open>['log']\<close>.\<close>

record session_status =
  st_id :: sid
  st_state :: string
  st_log :: "string list"

text \<open>An element of \<open>get_sessions()['sessions']\<close>.\<close>

record remote_session =
  rs_id :: sid
  rs_owner :: "string option"
  rs_state :: string

text \<open>
  The answer of \<open>fetch_data\<close>. \<open>response['output']\<close> is \<open>None\<close> while the statement
  runs. The \<open>data\<close> dict of a successful output is probed key by key, so every key the
  code looks for is optional; \<open>traceback\<close>, \<open>ename\<close> and \<open>evalue\<close> are read with
  \<open>.get\<close>.
\<close>

record header =
  h_name :: string
  h_type :: string

record livy_table =
  t_data :: pyval
  t_headers :: "header list"

record json_result =
  j_data :: pyval
  j_fields :: "header list"

record mime_data =
  d_table :: "livy_table option"
  d_image_png :: "pyval option"
  d_json :: "json_result option"
  d_text_plain :: "pyval option"

record content =
  c_status :: string
  c_data :: "mime_data option"
  c_traceback :: "string list option"
  c_ename :: "string option"
  c_evalue :: "string option"

record fetch_response =
  f_state :: string
  f_output :: "content option"

subsection \<open>The world: remote service, profile and trace\<close>

datatype event =
    GetSession sid "exn + session_status"
  | CreateSession "(string \<times> pyval) list" "exn + sid"
  | Close sid "exn + unit"
  | SubmitStatement sid string "exn + sid"
  | FetchData sid sid "exn + fetch_response"
  | GetSessions "exn + remote_session list"
  | Sleep nat
  | LogDebug string
  | LogWarning string
  | StoreRead string
  | StoreWrite string
  | StoreRemove string

text \<open>
  The Livy client returned by \<open>get_api()\<close>: each call maps the state of the remote
  service to an answer (or an exception) and the next state. Nothing is assumed about
  the service.
\<close>

record 'r livy_api =
  get_session :: "sid \<Rightarrow> 'r \<Rightarrow> (exn + session_status) \<times> 'r"
  create_session_call :: "(string \<times> pyval) list \<Rightarrow> 'r \<Rightarrow> (exn + sid) \<times> 'r"
  close :: "sid \<Rightarrow> 'r \<Rightarrow> (exn + unit) \<times> 'r"
  submit_statement :: "sid \<Rightarrow> string \<Rightarrow> 'r \<Rightarrow> (exn + sid) \<times> 'r"
  fetch_data :: "sid \<Rightarrow> sid \<Rightarrow> 'r \<Rightarrow> (exn + fetch_response) \<times> 'r"
  get_sessions :: "'r \<Rightarrow> (exn + remote_session list) \<times> 'r"

record 'r world =
  remote :: 'r
  profile :: "string \<rightharpoonup> session_info"
  trace :: "event list"

text \<open>
  \<open>self\<close>: the user name, the interpreter name, the Livy client, and the two external
  configuration reads of \<open>create_session\<close> (\<open>USE_DEFAULT_CONFIGURATION.get()\<close> and the
  \<open>properties_list\<close> of the user's default configuration, \<open>None\<close> when there is none).
\<close>

record prop_entry =
  e_name :: "string option"
  e_value :: "pyval option"

record 'r self =
  username :: string
  interpreter_name :: string
  api :: "'r livy_api"
  use_default_configuration :: bool
  user_config :: "prop_entry list option"

definition emit :: "event \<Rightarrow> 'r world \<Rightarrow> 'r world" where
  "emit ev w = w\<lparr>trace := trace w @ [ev]\<rparr>"

text \<open>The calls to the service, each recorded in the trace with its answer.\<close>

definition call_get_session :: "'r self \<Rightarrow> sid \<Rightarrow> 'r world \<Rightarrow> (exn + session_status) \<times> 'r world" where
  "call_get_session self i w =
     (case get_session (api self) i (remote w) of
        (r, rem') \<Rightarrow> (r, emit (GetSession i r) (w\<lparr>remote := rem'\<rparr>)))"

definition call_close :: "'r self \<Rightarrow> sid \<Rightarrow> 'r world \<Rightarrow> (exn + unit) \<times> 'r world" where
  "call_close self i w =
     (case close (api self) i (remote w) of
        (r, rem') \<Rightarrow> (r, emit (Close i r) (w\<lparr>remote := rem'\<rparr>)))"

subsection \<open>The session entry of the profile\<close>

text \<open>\<open>SESSION_KEY = '%(username)s-%(interpreter_name)s'\<close>\<close>

definition get_session_key :: "'r self \<Rightarrow> string" where
  "get_session_key self = username self @ ''-'' @ interpreter_name self"

text \<open>
  \<open>_get_session_info_from_user\<close>: the entry of the key when there is one (a stored
  session info is a non-empty dict, hence truthy), else \<open>None\<close>.
  \<open>_remove_session_info_from_user\<close> pops the key when it is there, so the entry is
  absent afterwards in either case.
\<close>

definition get_session_info_from_user :: "'r self \<Rightarrow> 'r world \<Rightarrow> session_info option \<times> 'r world" where
  "get_session_info_from_user self w =
     (profile w (get_session_key self), emit (StoreRead (get_session_key self)) w)"

definition set_session_info_to_user :: "'r self \<Rightarrow> session_info \<Rightarrow> 'r world \<Rightarrow> 'r world" where
  "set_session_info_to_user self info w =
     emit (StoreWrite (get_session_key self))
       (w\<lparr>profile := (profile w)(get_session_key self \<mapsto> info)\<rparr>)"

definition remove_session_info_from_user :: "'r self \<Rightarrow> 'r world \<Rightarrow> 'r world" where
  "remove_session_info_from_user self w =
     emit (StoreRemove (get_session_key self))
       (w\<lparr>profile := (profile w)(get_session_key self := None)\<rparr>)"

subsection \<open>\<open>_check_session\<close>\<close>

definition unhealthy_states :: "string list" where
  "unhealthy_states = [''dead'', ''shutting_down'', ''error'', ''killed'']"

text \<open>
  Any exception of \<open>get_session\<close> is caught and leaves \<open>session_present = None\<close>; the
  answer is returned only when its state is not one of the four unhealthy ones.
\<close>

definition check_session :: "'r self \<Rightarrow> session_info \<Rightarrow> 'r world \<Rightarrow> session_status option \<times> 'r world" where
  "check_session self session w =
     (case call_get_session self (s_id session) w of
        (Inl e, w1) \<Rightarrow> (None, w1)
      | (Inr session_present, w1) \<Rightarrow>
          (if st_state session_present \<notin> set unhealthy_states
           then Some session_present else None, w1))"

subsection \<open>\<open>close_session\<close>\<close>

text \<open>
  The returned dict: \<open>{'session': id, 'status': 0}\<close> or \<open>{'status': -1}\<close>. The method
  returns \<open>None\<close> (falls off its end) when a \<open>RestException\<close> with a code other than
  404 and 500 was caught.
\<close>

record close_result =
  cr_session :: "sid option"
  cr_status :: int

text \<open>The \<open>finally\<close> block: it runs after the \<open>try\<close> whatever its outcome.\<close>

definition close_session_finally :: "'r self \<Rightarrow> sid \<Rightarrow> 'r world \<Rightarrow> 'r world" where
  "close_session_finally self i w =
     (case get_session_info_from_user self w of
        (stored_session_info, w1) \<Rightarrow>
          (case stored_session_info of
             None \<Rightarrow> w1
           | Some stored \<Rightarrow>
               if i = s_id stored then remove_session_info_from_user self w1 else w1))"

text \<open>\<open>close_session\<close> reads only \<open>session['id']\<close>, which is its second argument here.\<close>

definition close_session :: "'r self \<Rightarrow> sid \<Rightarrow> 'r world \<Rightarrow> (exn + close_result option) \<times> 'r world" where
  "close_session self session_id w =
     (if session_id \<noteq> None then
        (case call_close self session_id w of
           (Inr u, w1) \<Rightarrow>
             (Inr (Some \<lparr>cr_session = Some session_id, cr_status = 0\<rparr>),
              close_session_finally self session_id w1)
         | (Inl (RestException code msg), w1) \<Rightarrow>
             (if code = 404 \<or> code = 500
              then Inl (SessionExpired (RestException code msg))
              else Inr None,
              close_session_finally self session_id w1)
         | (Inl e, w1) \<Rightarrow> (Inl e, close_session_finally self session_id w1))
      else (Inr (Some \<lparr>cr_session = None, cr_status = - 1\<rparr>), w))"

subsection \<open>\<open>SparkConfiguration.PROPERTIES\<close>\<close>

text \<open>The translation function \<open>_\<close> (gettext) is taken as the identity.\<close>

definition PROPERTIES :: "property list" where
  "PROPERTIES = [
    \<lparr> name = ''conf'', nice_name = ''Spark Conf'',
      help_text = ''Add one or more Spark conf properties to the session.'',
      ptype = ''settings'', is_yarn = False, multiple = True,
      defaultValue = VList [], pvalue = VList [] \<rparr>,
    \<lparr> name = ''jars'', nice_name = ''Jars'',
      help_text = ''Add one or more JAR files to the list of resources.'',
      ptype = ''csv-hdfs-files'', is_yarn = False, multiple = True,
      defaultValue = VList [], pvalue = VList [] \<rparr>,
    \<lparr> name = ''files'', nice_name = ''Files'',
      help_text = ''Files to be placed in the working directory of each executor.'',
      ptype = ''csv-hdfs-files'', is_yarn = False, multiple = True,
      defaultValue = VList [], pvalue = VList [] \<rparr>,
    \<lparr> name = ''pyFiles'', nice_name = ''pyFiles'',
      help_text = ''Python files to be placed in the working directory of each executor.'',
      ptype = ''csv-hdfs-files'', is_yarn = False, multiple = True,
      defaultValue = VList [], pvalue = VList [] \<rparr>,
    \<lparr> name = ''driverMemory'', nice_name = ''Driver Memory'',
      help_text = ''Amount of memory to use for the driver process in GB. (Default: 1). '',
      ptype = ''jvm'', is_yarn = False, multiple = False,
      defaultValue = VStr ''1G'', pvalue = VStr ''1G'' \<rparr>,
    \<lparr> name = ''driverCores'', nice_name = ''Driver Cores'',
      help_text = ''Number of cores used by the driver, only in cluster mode (Default: 1)'',
      ptype = ''number'', is_yarn = True, multiple = False,
      defaultValue = VInt 1, pvalue = VInt 1 \<rparr>,
    \<lparr> name = ''executorMemory'', nice_name = ''Executor Memory'',
      help_text = ''Amount of memory to use per executor process in GB. (Default: 1)'',
      ptype = ''jvm'', is_yarn = True, multiple = False,
      defaultValue = VStr ''1G'', pvalue = VStr ''1G'' \<rparr>,
    \<lparr> name = ''executorCores'', nice_name = ''Executor Cores'',
      help_text = ''Number of cores used by the driver, only in cluster mode (Default: 1)'',
      ptype = ''number'', is_yarn = True, multiple = False,
      defaultValue = VInt 1, pvalue = VInt 1 \<rparr>,
    \<lparr> name = ''queue'', nice_name = ''Queue'',
      help_text = ''The YARN queue to submit to, only in cluster mode (Default: default)'',
      ptype = ''string'', is_yarn = True, multiple = False,
      defaultValue = VStr ''default'', pvalue = VStr ''default'' \<rparr>,
    \<lparr> name = ''archives'', nice_name = ''Archives'',
      help_text = ''Archives to be extracted into the working directory of each executor, only in cluster mode.'',
      ptype = ''csv-hdfs-files'', is_yarn = True, multiple = True,
      defaultValue = VList [], pvalue = VList [] \<rparr> ]"

subsection \<open>\<open>get_livy_props\<close> and \<open>to_properties\<close>\<close>

text \<open>
  A Python dict is an association list in insertion order with distinct keys:
  \<open>d[k] = v\<close> is \<open>AList.update k v d\<close> (in place when the key is there, appended
  otherwise), \<open>dict(pairs)\<close> and \<open>d.update(pairs)\<close> insert the pairs from left to
  right, \<open>k in d\<close> and \<open>d[k]\<close> are \<open>map_of d k\<close>.
\<close>

definition dict_update :: "('k \<times> 'v) list \<Rightarrow> ('k \<times> 'v) list \<Rightarrow> ('k \<times> 'v) list" where
  "dict_update d pairs = foldl (\<lambda>acc (k, v). AList.update k v acc) d pairs"

definition py_dict :: "('k \<times> 'v) list \<Rightarrow> ('k \<times> 'v) list" where
  "py_dict pairs = dict_update [] pairs"

text \<open>\<open>s.split(c)\<close> for a one-character separator.\<close>

fun split_on :: "char \<Rightarrow> string \<Rightarrow> string list" where
  "split_on c [] = [[]]"
| "split_on c (x # xs) =
     (if x = c then [] # split_on c xs
      else (case split_on c xs of y # ys \<Rightarrow> (x # y) # ys | [] \<Rightarrow> [[x]]))"

text \<open>
  The loop over \<open>['archives', 'jars', 'files', 'pyFiles']\<close>: a value that is not a list
  is split at the commas; only a string has \<open>split\<close>.
\<close>

fun coerce_lists :: "string list \<Rightarrow> (string \<times> pyval) list \<Rightarrow> exn + (string \<times> pyval) list" where
  "coerce_lists [] props = Inr props"
| "coerce_lists (key # keys) props =
     (case map_of props key of
        None \<Rightarrow> coerce_lists keys props
      | Some (VList l) \<Rightarrow> coerce_lists keys props
      | Some (VStr tmp) \<Rightarrow>
          coerce_lists keys (AList.update key (VList (map VStr (split_on CHR '','' tmp))) props)
      | Some other \<Rightarrow> Inl (AttributeError ''split''))"

text \<open>\<open>d.get(k)\<close>, and the values a dict accepts as keys.\<close>

definition dict_get :: "(pyval \<times> pyval) list \<Rightarrow> pyval \<Rightarrow> pyval" where
  "dict_get d k = (case map_of d k of None \<Rightarrow> VNone | Some v \<Rightarrow> v)"

fun hashable :: "pyval \<Rightarrow> bool" where
  "hashable (VList l) = False"
| "hashable (VDict d) = False"
| "hashable v = True"

text \<open>
  \<open>{conf.get('key'): conf.get('value') for i, conf in enumerate(props['conf'])}\<close>:
  the elements that \<open>enumerate\<close> yields, and the dict built from them. Only a dict
  has \<open>get\<close>.
\<close>

fun py_iter :: "pyval \<Rightarrow> exn + pyval list" where
  "py_iter (VList l) = Inr l"
| "py_iter (VStr s) = Inr (map (\<lambda>c. VStr [c]) s)"
| "py_iter (VDict d) = Inr (map fst d)"
| "py_iter v = Inl (TypeError ''object is not iterable'')"

fun conf_dict :: "pyval list \<Rightarrow> (pyval \<times> pyval) list \<Rightarrow> exn + (pyval \<times> pyval) list" where
  "conf_dict [] acc = Inr acc"
| "conf_dict (VDict conf # rest) acc =
     (if hashable (dict_get conf (VStr ''key''))
      then conf_dict rest
             (AList.update (dict_get conf (VStr ''key'')) (dict_get conf (VStr ''value'')) acc)
      else Inl (TypeError ''unhashable type''))"
| "conf_dict (other # rest) acc = Inl (AttributeError ''get'')"

text \<open>
  A caller-supplied property is a dict of which the code looks at the keys \<open>'name'\<close>
  and \<open>'value'\<close>; either may be missing. The three \<open>LOG.debug\<close> lines of
  \<open>get_livy_props\<close> have no bearing on its result and are left out.
\<close>

definition get_livy_props :: "string \<Rightarrow> prop_entry list option \<Rightarrow> exn + (string \<times> pyval) list" where
  "get_livy_props lang properties =
     (let props0 = py_dict (map (\<lambda>p. (name p, pvalue p)) PROPERTIES);
          props1 = (case properties of
                      None \<Rightarrow> props0
                    | Some ps \<Rightarrow>
                        dict_update props0
                          (py_dict (map (\<lambda>p. (the (e_name p), the (e_value p)))
                             (filter (\<lambda>p. e_name p \<noteq> None \<and> e_value p \<noteq> None) ps))))
      in case coerce_lists [''archives'', ''jars'', ''files'', ''pyFiles''] props1 of
           Inl e \<Rightarrow> Inl e
         | Inr props2 \<Rightarrow>
             (case map_of props2 ''conf'' of
                None \<Rightarrow> Inl (KeyError ''conf'')
              | Some c \<Rightarrow>
                  (case py_iter c of
                     Inl e \<Rightarrow> Inl e
                   | Inr confs \<Rightarrow>
                       (case conf_dict confs [] of
                          Inl e \<Rightarrow> Inl e
                        | Inr d \<Rightarrow>
                            Inr (AList.update ''kind''
                                   (VStr (if lang = ''sparksql'' then ''sql'' else lang))
                                   (AList.update ''conf'' (VDict d) props2))))))"

definition to_properties :: "(string \<times> pyval) list option \<Rightarrow> property list" where
  "to_properties props =
     (case props of
        None \<Rightarrow> PROPERTIES
      | Some d \<Rightarrow>
          map (\<lambda>p. case map_of d (name p) of Some v \<Rightarrow> p\<lparr>pvalue := v\<rparr> | None \<Rightarrow> p) PROPERTIES)"

text \<open>
  The merge as the specification words it: the defaults \<open>D\<close> in their order, where
  each name that the caller supplies has the caller's value (the last one, when the name
  occurs more than once) and every other entry is untouched.
\<close>

definition supplied :: "prop_entry list option \<Rightarrow> string \<Rightarrow> pyval option" where
  "supplied properties n =
     (case properties of
        None \<Rightarrow> None
      | Some ps \<Rightarrow>
          map_of (rev (map (\<lambda>p. (the (e_name p), the (e_value p)))
                         (filter (\<lambda>p. e_name p \<noteq> None \<and> e_value p \<noteq> None) ps))) n)"

definition merge_spec :: "prop_entry list option \<Rightarrow> property list \<Rightarrow> property list" where
  "merge_spec properties D =
     map (\<lambda>d. case supplied properties (name d) of Some v \<Rightarrow> d\<lparr>pvalue := v\<rparr> | None \<Rightarrow> d) D"

text \<open>
  What \<open>get_livy_props\<close> makes of a merged value before the request is sent: the
  \<open>conf\<close> list of \<open>{key, value}\<close> entries becomes a dict, and a string under one of
  the four list-valued names is split at its commas.
\<close>

definition coerce :: "pyval \<Rightarrow> pyval" where
  "coerce v = (case v of VStr s \<Rightarrow> VList (map VStr (split_on CHR '','' s)) | other \<Rightarrow> v)"

definition livy_value :: "string \<Rightarrow> pyval \<Rightarrow> pyval" where
  "livy_value n v =
     (if n = ''conf'' then
        (case py_iter v of
           Inl e \<Rightarrow> v
         | Inr confs \<Rightarrow> (case conf_dict confs [] of Inl e \<Rightarrow> v | Inr d \<Rightarrow> VDict d))
      else if n \<in> set [''archives'', ''jars'', ''files'', ''pyFiles''] then coerce v
      else v)"

subsection \<open>The polling loops\<close>

text \<open>
  Both loops of the connector have the shape
  \<^verbatim>\<open>
    count = 0
    while <state test on status> and count < 120:
      status = <fetch>
      count += 1
      time.sleep(1)
  \<close>
  \<open>poll_while\<close> is that loop: it returns the last status with the final \<open>count\<close>, or the
  exception of the fetch that raised.
\<close>

function poll_while ::
  "('s \<Rightarrow> bool) \<Rightarrow> ('r world \<Rightarrow> (exn + 's) \<times> 'r world) \<Rightarrow> 's \<Rightarrow> nat \<Rightarrow> 'r world
     \<Rightarrow> (exn + 's \<times> nat) \<times> 'r world" where
  "poll_while test fetch status count w =
     (if test status \<and> count < 120 then
        (case fetch w of
           (Inl e, w1) \<Rightarrow> (Inl e, w1)
         | (Inr status', w1) \<Rightarrow> poll_while test fetch status' (count + 1) (emit (Sleep 1) w1))
      else (Inr (status, count), w))"
  by pat_completeness auto
termination
  by (relation "measure (\<lambda>(test, fetch, status, count, w). 120 - count)") auto

text \<open>
  The trace of \<open>k\<close> successful loop iterations: each fetches a status and sleeps one
  second. \<open>ev\<close> is the event that records the fetch.
\<close>

definition poll_events :: "((exn + 's) \<Rightarrow> event) \<Rightarrow> 's list \<Rightarrow> event list" where
  "poll_events ev sts = concat (map (\<lambda>s. [ev (Inr s), Sleep 1]) sts)"

text \<open>Reading a trace: the durations slept, and the calls of one kind.\<close>

fun slept :: "event \<Rightarrow> nat option" where
  "slept (Sleep d) = Some d"
| "slept ev = None"

definition sleeps :: "event list \<Rightarrow> nat list" where
  "sleeps evs = List.map_filter slept evs"


fun is_fetch_data :: "event \<Rightarrow> bool" where
  "is_fetch_data (FetchData i c r) = True"
| "is_fetch_data ev = False"

subsection \<open>\<open>create_session\<close>\<close>

definition call_create_session ::
  "'r self \<Rightarrow> (string \<times> pyval) list \<Rightarrow> 'r world \<Rightarrow> (exn + sid) \<times> 'r world" where
  "call_create_session self props w =
     (case create_session_call (api self) props (remote w) of
        (r, rem') \<Rightarrow> (r, emit (CreateSession props r) (w\<lparr>remote := rem'\<rparr>)))"

text \<open>\<open>'\n'.join(log)\<close>\<close>

fun join_lines :: "string list \<Rightarrow> string" where
  "join_lines [] = []"
| "join_lines [l] = l"
| "join_lines (l # ls) = l @ [CHR 0x0A] @ join_lines ls"

definition creation_error :: "session_status \<Rightarrow> exn" where
  "creation_error status =
     QueryError (''The Spark session is '' @ st_state status
                 @ '' and could not be created in the cluster: ''
                 @ (if st_log status \<noteq> [] then join_lines (st_log status) else ''timeout''))"

text \<open>
  The properties that reach \<open>get_livy_props\<close>: the caller's, or the user's default
  configuration when the caller gave none (\<open>None\<close> or an empty list) and default
  configurations are in use.
\<close>

definition effective_properties :: "'r self \<Rightarrow> prop_entry list option \<Rightarrow> prop_entry list option" where
  "effective_properties self properties =
     (if (properties = None \<or> properties = Some []) \<and> use_default_configuration self
      then (case user_config self of None \<Rightarrow> properties | Some pl \<Rightarrow> Some pl)
      else properties)"

text \<open>
  \<open>start_session\<close> is the middle of \<open>create_session\<close>: the create request, the first
  \<open>get_session\<close> and the loop that polls while the state is \<open>'starting'\<close>. It returns
  the id of the response, the last status and the number of loop iterations.
\<close>

definition start_session ::
  "'r self \<Rightarrow> (string \<times> pyval) list \<Rightarrow> 'r world \<Rightarrow> (exn + sid \<times> session_status \<times> nat) \<times> 'r world" where
  "start_session self props w =
     (case call_create_session self props w of
        (Inl e, w1) \<Rightarrow> (Inl e, w1)
      | (Inr response_id, w1) \<Rightarrow>
          (case call_get_session self response_id w1 of
             (Inl e, w2) \<Rightarrow> (Inl e, w2)
           | (Inr status, w2) \<Rightarrow>
               (case poll_while (\<lambda>st. st_state st = ''starting'')
                       (call_get_session self response_id) status 0 w2 of
                  (Inl e, w3) \<Rightarrow> (Inl e, w3)
                | (Inr (status', count), w3) \<Rightarrow> (Inr (response_id, status', count), w3))))"

text \<open>\<open>create_session_new\<close> is \<open>create_session\<close> from the point where no stored session was accepted.\<close>

definition create_session_new ::
  "'r self \<Rightarrow> string \<Rightarrow> prop_entry list option \<Rightarrow> 'r world \<Rightarrow> (exn + session_info) \<times> 'r world" where
  "create_session_new self lang properties w =
     (case get_livy_props lang (effective_properties self properties) of
        Inl e \<Rightarrow> (Inl e, w)
      | Inr props \<Rightarrow>
          (case start_session self props w of
             (Inl e, w1) \<Rightarrow> (Inl e, w1)
           | (Inr (response_id, status, count), w1) \<Rightarrow>
               if st_state status \<noteq> ''idle'' then (Inl (creation_error status), w1)
               else
                 (let new_session_info =
                        \<lparr> s_type = lang, s_id = response_id,
                          s_properties = to_properties (Some props) \<rparr>
                  in (Inr new_session_info, set_session_info_to_user self new_session_info w1))))"

definition create_session ::
  "'r self \<Rightarrow> string \<Rightarrow> prop_entry list option \<Rightarrow> 'r world \<Rightarrow> (exn + session_info) \<times> 'r world" where
  "create_session self lang properties w =
     (case get_session_info_from_user self w of
        (None, w1) \<Rightarrow> create_session_new self lang properties w1
      | (Some stored_session_info, w1) \<Rightarrow>
          (case check_session self stored_session_info w1 of
             (Some session_present, w2) \<Rightarrow> (Inr stored_session_info, w2)
           | (None, w2) \<Rightarrow> create_session_new self lang properties w2))"

text \<open>The most recent state that \<open>get_session\<close> reported, with the id it was asked for.\<close>

fun observed :: "event \<Rightarrow> (sid \<times> session_status) option" where
  "observed (GetSession i (Inr st)) = Some (i, st)"
| "observed ev = None"

fun last_observed :: "event list \<Rightarrow> (sid \<times> session_status) option" where
  "last_observed [] = None"
| "last_observed (ev # evs) =
     (case last_observed evs of Some x \<Rightarrow> Some x | None \<Rightarrow> observed ev)"

subsection \<open>Error messages\<close>

text \<open>
  \<open>force_unicode(str(e)).lower()\<close>: \<open>str(e)\<close> of each exception, and \<open>lower\<close> on
  the letters A to Z (characters are bytes here).
\<close>

fun exn_str :: "exn \<Rightarrow> string" where
  "exn_str (RestException code s) = s"
| "exn_str (OtherException s) = s"
| "exn_str (SessionExpired e) = exn_str e"
| "exn_str (QueryError s) = s"
| "exn_str (PopupException s) = s"
| "exn_str (KeyError k) = [CHR 0x27] @ k @ [CHR 0x27]"
| "exn_str (TypeError s) = s"
| "exn_str (AttributeError s) = s"

definition lower_char :: "char \<Rightarrow> char" where
  "lower_char c =
     (if 65 \<le> (of_char c :: nat) \<and> (of_char c :: nat) \<le> 90
      then char_of (of_char c + 32 :: nat) else c)"

definition lower :: "string \<Rightarrow> string" where
  "lower s = map lower_char s"

text \<open>
  \<open>re.search("session ('\d+' )?not found", message)\<close>. \<open>is_digit\<close> is \<open>\d\<close> on
  bytes: 0 to 9. \<open>session_not_found_at s\<close> says that the pattern matches at the very
  start of \<open>s\<close>: after \<open>session \<close> either \<open>not found\<close> follows, or a quote, one
  or more digits, a quote, a space and \<open>not found\<close>. \<open>re.search\<close> tries every
  position from left to right.
\<close>

definition is_digit :: "char \<Rightarrow> bool" where
  "is_digit c = (48 \<le> (of_char c :: nat) \<and> (of_char c :: nat) \<le> 57)"

definition session_not_found_at :: "string \<Rightarrow> bool" where
  "session_not_found_at s =
     (prefix ''session '' s \<and>
       (let r = drop 8 s in
          prefix ''not found'' r
        \<or> (prefix [CHR 0x27] r \<and> takeWhile is_digit (drop 1 r) \<noteq> []
            \<and> prefix ([CHR 0x27] @ '' not found'') (dropWhile is_digit (drop 1 r)))))"

fun re_search :: "(string \<Rightarrow> bool) \<Rightarrow> string \<Rightarrow> bool" where
  "re_search at [] = at []"
| "re_search at (c # s) = (at (c # s) \<or> re_search at s)"

definition session_not_found :: "string \<Rightarrow> bool" where
  "session_not_found message = re_search session_not_found_at message"

subsection \<open>\<open>_fetch_result\<close>\<close>

text \<open>
  The class has the public methods \<open>fetch_result\<close> and \<open>execute\<close> beside the private
  \<open>_fetch_result\<close> and \<open>_execute\<close>; the models of the private ones are
  \<open>private_fetch_result\<close> and \<open>private_execute\<close>.
\<close>

record meta =
  m_name :: string
  m_type :: string
  m_comment :: string

record result_payload =
  r_data :: pyval
  r_images :: "pyval list"
  r_meta :: "meta list"
  r_type :: string

definition call_fetch_data :: "'r self \<Rightarrow> sid \<Rightarrow> sid \<Rightarrow> 'r world \<Rightarrow> (exn + fetch_response) \<times> 'r world" where
  "call_fetch_data self i cell w =
     (case fetch_data (api self) i cell (remote w) of
        (r, rem') \<Rightarrow> (r, emit (FetchData i cell r) (w\<lparr>remote := rem'\<rparr>)))"

text \<open>
  The success branch up to the \<open>start_over\<close> test: \<open>(data, images, meta, type)\<close>, or
  the \<open>KeyError\<close> of \<open>data['text/plain']\<close>.
\<close>

definition read_data :: "mime_data \<Rightarrow> exn + pyval \<times> pyval list \<times> meta list \<times> string" where
  "read_data data =
     (case d_table data of
        None \<Rightarrow>
          (let images = (case d_image_png data of Some png \<Rightarrow> [png] | None \<Rightarrow> [])
           in case d_json data of
                Some result \<Rightarrow>
                  Inr (j_data result, images,
                       map (\<lambda>field. \<lparr>m_name = h_name field, m_type = h_type field, m_comment = ''''\<rparr>)
                         (j_fields result),
                       ''table'')
              | None \<Rightarrow>
                  (case d_text_plain data of
                     None \<Rightarrow> Inl (KeyError ''text/plain'')
                   | Some text \<Rightarrow>
                       Inr (VList [VList [text]], images,
                            [\<lparr>m_name = ''Header'', m_type = ''STRING_TYPE'', m_comment = ''''\<rparr>],
                            ''text'')))
      | Some table \<Rightarrow>
          Inr (t_data table, [],
               map (\<lambda>h. \<lparr>m_name = h_name h, m_type = h_type h, m_comment = ''''\<rparr>) (t_headers table),
               ''table''))"

text \<open>The error branch: the message of the \<open>QueryError\<close>.\<close>

definition error_message :: "content \<Rightarrow> string" where
  "error_message content =
     (if c_traceback content = None \<or> c_traceback content = Some [] then
        (let msg = (case c_ename content of None \<Rightarrow> ''unknown error'' | Some n \<Rightarrow> n)
         in case c_evalue content of None \<Rightarrow> msg | Some evalue \<Rightarrow> msg @ '': '' @ evalue)
      else concat (the (c_traceback content)))"

text \<open>
  Everything after the fetch. The method returns \<open>None\<close> when the status is neither
  \<open>ok\<close> nor \<open>error\<close>.
\<close>

definition read_content :: "content option \<Rightarrow> bool \<Rightarrow> exn + result_payload option" where
  "read_content output start_over =
     (case output of
        None \<Rightarrow> Inl (TypeError ''NoneType object is not subscriptable'')
      | Some content \<Rightarrow>
          if c_status content = ''ok'' then
            (case c_data content of
               None \<Rightarrow> Inl (KeyError ''data'')
             | Some data \<Rightarrow>
                 (case read_data data of
                    Inl e \<Rightarrow> Inl e
                  | Inr (rows, images, meta, type) \<Rightarrow>
                      Inr (Some \<lparr> r_data = (if \<not> start_over then VList [] else rows),
                                   r_images = images, r_meta = meta, r_type = type \<rparr>)))
          else if c_status content = ''error'' then Inl (QueryError (error_message content))
          else Inr None)"

definition private_fetch_result ::
  "'r self \<Rightarrow> session_info \<Rightarrow> sid \<Rightarrow> bool \<Rightarrow> 'r world \<Rightarrow> (exn + result_payload option) \<times> 'r world" where
  "private_fetch_result self session cell start_over w =
     (case call_fetch_data self (s_id session) cell w of
        (Inl e, w1) \<Rightarrow>
          (if session_not_found (lower (exn_str e)) then Inl (SessionExpired e) else Inl e, w1)
      | (Inr response, w1) \<Rightarrow> (read_content (f_output response) start_over, w1))"

subsection \<open>\<open>_check_status_and_fetch_result\<close>\<close>

text \<open>
  \<open>check_status_loop\<close> is the first part of the method: the first \<open>fetch_data\<close> and the
  loop that fetches again while the state is running or waiting. It returns the last
  status and the number of loop iterations.
\<close>

definition check_status_loop ::
  "'r self \<Rightarrow> session_info \<Rightarrow> sid \<Rightarrow> 'r world \<Rightarrow> (exn + fetch_response \<times> nat) \<times> 'r world" where
  "check_status_loop self session execute_id w =
     (case call_fetch_data self (s_id session) execute_id w of
        (Inl e, w1) \<Rightarrow> (Inl e, w1)
      | (Inr check_status, w1) \<Rightarrow>
          poll_while (\<lambda>st. f_state st \<in> set [''running'', ''waiting''])
            (call_fetch_data self (s_id session) execute_id) check_status 0 w1)"

definition check_status_and_fetch_result ::
  "'r self \<Rightarrow> session_info \<Rightarrow> sid \<Rightarrow> 'r world \<Rightarrow> (exn + result_payload option) \<times> 'r world" where
  "check_status_and_fetch_result self session execute_id w =
     (case check_status_loop self session execute_id w of
        (Inl e, w1) \<Rightarrow> (Inl e, w1)
      | (Inr (check_status, count), w1) \<Rightarrow>
          if f_state check_status = ''available''
          then private_fetch_result self session execute_id True w1
          else (Inr None, w1))"

subsection \<open>\<open>_execute\<close>\<close>








subsection \<open>\<open>_close_unused_sessions\<close>\<close>

definition call_get_sessions :: "'r self \<Rightarrow> 'r world \<Rightarrow> (exn + remote_session list) \<times> 'r world" where
  "call_get_sessions self w =
     (case get_sessions (api self) (remote w) of
        (r, rem') \<Rightarrow> (r, emit (GetSessions r) (w\<lparr>remote := rem'\<rparr>)))"

definition unused_states :: "string list" where
  "unused_states = [''idle'', ''shutting_down'', ''error'', ''dead'', ''killed'']"

text \<open>
  The \<open>for\<close> loop over \<open>all_sessions['sessions']\<close>. The condition is evaluated from
  left to right: \<open>stored_session_info['id']\<close> is read only for a session of the user,
  and raises \<open>TypeError\<close> when nothing is stored. An exception of \<open>close_session\<close>
  is not caught.
\<close>

fun close_unused_loop ::
  "'r self \<Rightarrow> session_info option \<Rightarrow> remote_session list \<Rightarrow> 'r world \<Rightarrow> (exn + unit) \<times> 'r world" where
  "close_unused_loop self stored_session_info [] w = (Inr (), w)"
| "close_unused_loop self stored_session_info (session # rest) w =
     (if rs_owner session = Some (username self) then
        (case stored_session_info of
           None \<Rightarrow> (Inl (TypeError ''NoneType object is not subscriptable''), w)
         | Some stored \<Rightarrow>
             if rs_id session \<noteq> s_id stored \<and> rs_state session \<in> set unused_states then
               (case close_session self (rs_id session) w of
                  (Inl e, w1) \<Rightarrow> (Inl e, w1)
                | (Inr r, w1) \<Rightarrow> close_unused_loop self stored_session_info rest w1)
             else close_unused_loop self stored_session_info rest w)
      else close_unused_loop self stored_session_info rest w)"

text \<open>
  An exception of \<open>get_sessions\<close> is logged at debug level and leaves
  \<open>all_sessions = {}\<close>, so nothing else happens.
\<close>

definition close_unused_sessions :: "'r self \<Rightarrow> 'r world \<Rightarrow> (exn + unit) \<times> 'r world" where
  "close_unused_sessions self w =
     (case call_get_sessions self w of
        (Inl e, w1) \<Rightarrow> (Inr (), emit (LogDebug (lower (exn_str e))) w1)
      | (Inr all_sessions, w1) \<Rightarrow>
          (case get_session_info_from_user self w1 of
             (stored_session_info, w2) \<Rightarrow>
               close_unused_loop self stored_session_info all_sessions w2))"

text \<open>The sessions that \<open>close\<close> was called for, in the order of the calls.\<close>

fun closed_id :: "event \<Rightarrow> sid option" where
  "closed_id (Close i r) = Some i"
| "closed_id ev = None"

definition closed_ids :: "event list \<Rightarrow> sid list" where
  "closed_ids evs = List.map_filter closed_id evs"

subsection \<open>\<open>_get_standalone_jobs\<close>\<close>









subsection \<open>A scripted service for the scenarios\<close>

text \<open>
  A mock of the remote service: for each kind of call a list of answers, handed out in
  order; a call that finds its list empty raises.
\<close>

record script =
  sc_get_session :: "(exn + session_status) list"
  sc_create_session :: "(exn + sid) list"
  sc_close :: "(exn + unit) list"
  sc_submit_statement :: "(exn + sid) list"
  sc_fetch_data :: "(exn + fetch_response) list"
  sc_get_sessions :: "(exn + remote_session list) list"

definition next_answer :: "(exn + 'a) list \<Rightarrow> (exn + 'a) \<times> (exn + 'a) list" where
  "next_answer xs = (case xs of [] \<Rightarrow> (Inl (OtherException ''no answer scripted''), [])
                     | x # rest \<Rightarrow> (x, rest))"

definition scripted_api :: "script livy_api" where
  "scripted_api = \<lparr>
     get_session = (\<lambda>i s. case next_answer (sc_get_session s) of
                              (r, rest) \<Rightarrow> (r, s\<lparr>sc_get_session := rest\<rparr>)),
     create_session_call = (\<lambda>props s. case next_answer (sc_create_session s) of
                              (r, rest) \<Rightarrow> (r, s\<lparr>sc_create_session := rest\<rparr>)),
     close = (\<lambda>i s. case next_answer (sc_close s) of
                              (r, rest) \<Rightarrow> (r, s\<lparr>sc_close := rest\<rparr>)),
     submit_statement = (\<lambda>i code s. case next_answer (sc_submit_statement s) of
                              (r, rest) \<Rightarrow> (r, s\<lparr>sc_submit_statement := rest\<rparr>)),
     fetch_data = (\<lambda>i cell s. case next_answer (sc_fetch_data s) of
                              (r, rest) \<Rightarrow> (r, s\<lparr>sc_fetch_data := rest\<rparr>)),
     get_sessions = (\<lambda>s. case next_answer (sc_get_sessions s) of
                              (r, rest) \<Rightarrow> (r, s\<lparr>sc_get_sessions := rest\<rparr>)) \<rparr>"

definition no_answers :: script where
  "no_answers = \<lparr> sc_get_session = [], sc_create_session = [], sc_close = [],
     sc_submit_statement = [], sc_fetch_data = [], sc_get_sessions = [] \<rparr>"

definition alice :: "script self" where
  "alice = \<lparr> username = ''alice'', interpreter_name = ''pyspark'', api = scripted_api,
     use_default_configuration = False, user_config = None \<rparr>"

definition world_of :: "script \<Rightarrow> (string \<rightharpoonup> session_info) \<Rightarrow> script world" where
  "world_of s p = \<lparr> remote = s, profile = p, trace = [] \<rparr>"

definition stored_session :: "int \<Rightarrow> session_info" where
  "stored_session i = \<lparr> s_type = ''pyspark'', s_id = Some i, s_properties = [] \<rparr>"

definition gone_404 :: script where
  "gone_404 = no_answers\<lparr>sc_close := [Inl (RestException 404 ''Session 7 not found'')]\<rparr>"

text \<open>A stored session 7 that the service reports busy.\<close>

definition busy_status :: session_status where
  "busy_status = \<lparr> st_id = Some 7, st_state = ''busy'', st_log = [] \<rparr>"

definition busy_7 :: "script world" where
  "busy_7 = world_of (no_answers\<lparr>sc_get_session := [Inr busy_status]\<rparr>)
              [''alice-pyspark'' \<mapsto> stored_session 7]"






text \<open>The caller asks for two gigabytes of driver memory.\<close>

definition driver_2g :: "prop_entry list" where
  "driver_2g = [\<lparr> e_name = Some ''driverMemory'', e_value = Some (VStr ''2G'') \<rparr>]"

definition scala_2g_props :: "(string \<times> pyval) list" where
  "scala_2g_props =
     [(''conf'', VDict []), (''jars'', VList []), (''files'', VList []),
      (''pyFiles'', VList []), (''driverMemory'', VStr ''2G''), (''driverCores'', VInt 1),
      (''executorMemory'', VStr ''1G''), (''executorCores'', VInt 1),
      (''queue'', VStr ''default''), (''archives'', VList []), (''kind'', VStr ''scala'')]"

text \<open>A statement that is running for the first five fetches and available at the sixth.\<close>

definition statement_status :: "string \<Rightarrow> fetch_response" where
  "statement_status s = \<lparr> f_state = s, f_output = None \<rparr>"

definition running_five :: "script world" where
  "running_five = world_of (no_answers\<lparr>sc_fetch_data :=
       [Inr (statement_status ''running''), Inr (statement_status ''running''),
        Inr (statement_status ''running''), Inr (statement_status ''running''),
        Inr (statement_status ''running''), Inr (statement_status ''available'')]\<rparr>)
     [''alice-pyspark'' \<mapsto> stored_session 7]"








text \<open>
  The service lists two idle sessions of alice beside her stored session 7, and answers
  the first \<open>close\<close> with 404.
\<close>

definition idle_session :: "int \<Rightarrow> remote_session" where
  "idle_session i = \<lparr> rs_id = Some i, rs_owner = Some ''alice'', rs_state = ''idle'' \<rparr>"

definition not_found_404 :: exn where
  "not_found_404 = RestException 404 ''Not Found (error 404)''"

definition sweep_404 :: "script world" where
  "sweep_404 = world_of (no_answers\<lparr>sc_get_sessions := [Inr [idle_session 1, idle_session 2]],
       sc_close := [Inl not_found_404, Inr ()]\<rparr>) [''alice-pyspark'' \<mapsto> stored_session 7]"


text \<open>The same listing with a service that closes both sessions.\<close>

definition sweep_ok :: "script world" where
  "sweep_ok = world_of (no_answers\<lparr>sc_get_sessions := [Inr [idle_session 1, idle_session 2]],
       sc_close := [Inr (), Inr ()]\<rparr>) [''alice-pyspark'' \<mapsto> stored_session 7]"

section \<open>Theorems\<close>

subsection \<open>Auxiliary facts: traces and the polling loop\<close>

declare poll_while.simps [simp del]

lemma trace_emit [simp]: "trace (emit ev w) = trace w @ [ev]"
  and profile_emit [simp]: "profile (emit ev w) = profile w"
  and remote_emit [simp]: "remote (emit ev w) = remote w"
  by (simp_all add: emit_def)

lemma poll_while_success:
  assumes "poll_while test fetch st c w = (Inr (st', n), w')"
    and "\<And>w r w1. fetch w = (r, w1) \<Longrightarrow> trace w1 = trace w @ [ev r]"
  shows "\<exists>sts. n = c + length sts \<and> n \<le> max c 120
          \<and> trace w' = trace w @ poll_events ev sts
          \<and> st' = last (st # sts)
          \<and> (\<forall>s \<in> set (butlast (st # sts)). test s)
          \<and> (\<not> test st' \<or> 120 \<le> n)"
  using assms
proof (induction test fetch st c w rule: poll_while.induct)
  case (1 test fetch status count w)
  note run = "1.prems"(1) and fetch = "1.prems"(2)
  show ?case
  proof (cases "test status \<and> count < 120")
    case False
    with run have "st' = status" "n = count" "w' = w"
      by (simp_all add: poll_while.simps)
    with False show ?thesis
      by (intro exI [of _ "[]"]) (auto simp: poll_events_def)
  next
    case True
    obtain r w1 where f: "fetch w = (r, w1)" by (cases "fetch w")
    with True run obtain s1 where r: "r = Inr s1"
      by (cases r) (simp_all add: poll_while.simps)
    from True f r run
    have rec: "poll_while test fetch s1 (count + 1) (emit (Sleep 1) w1) = (Inr (st', n), w')"
      by (simp add: poll_while.simps)
    from "1.IH" [OF True f [symmetric] r rec fetch]
    obtain sts where sts: "n = count + 1 + length sts" "n \<le> max (count + 1) 120"
      "trace w' = trace (emit (Sleep 1) w1) @ poll_events ev sts"
      "st' = last (s1 # sts)" "\<forall>s \<in> set (butlast (s1 # sts)). test s"
      "\<not> test st' \<or> 120 \<le> n"
      by blast
    from fetch [OF f] r have t1: "trace w1 = trace w @ [ev (Inr s1)]" by simp
    show ?thesis
      using sts True t1
      by (intro exI [of _ "s1 # sts"]) (auto simp: poll_events_def)
  qed
qed

lemma poll_while_failure:
  assumes "poll_while test fetch st c w = (Inl e, w')"
    and "\<And>w r w1. fetch w = (r, w1) \<Longrightarrow> trace w1 = trace w @ [ev r]"
  shows "\<exists>sts. c + length sts < 120
          \<and> trace w' = trace w @ poll_events ev sts @ [ev (Inl e)]
          \<and> (\<forall>s \<in> set (st # sts). test s)"
  using assms
proof (induction test fetch st c w rule: poll_while.induct)
  case (1 test fetch status count w)
  note run = "1.prems"(1) and fetch = "1.prems"(2)
  show ?case
  proof (cases "test status \<and> count < 120")
    case False
    with run show ?thesis
      by (simp add: poll_while.simps)
  next
    case True
    obtain r w1 where f: "fetch w = (r, w1)" by (cases "fetch w")
    show ?thesis
    proof (cases r)
      case (Inl e1)
      with True f run have "e1 = e" "w1 = w'"
        by (simp_all add: poll_while.simps)
      with fetch [OF f] Inl True show ?thesis
        by (intro exI [of _ "[]"]) (auto simp: poll_events_def)
    next
      case (Inr s1)
      from True f Inr run
      have rec: "poll_while test fetch s1 (count + 1) (emit (Sleep 1) w1) = (Inl e, w')"
        by (simp add: poll_while.simps)
      from "1.IH" [OF True f [symmetric] Inr rec fetch]
      obtain sts where sts: "count + 1 + length sts < 120"
        "trace w' = trace (emit (Sleep 1) w1) @ poll_events ev sts @ [ev (Inl e)]"
        "\<forall>s \<in> set (s1 # sts). test s"
        by blast
      from fetch [OF f] Inr have t1: "trace w1 = trace w @ [ev (Inr s1)]" by simp
      show ?thesis
        using sts True t1
        by (intro exI [of _ "s1 # sts"]) (auto simp: poll_events_def)
    qed
  qed
qed

lemma sleeps_append [simp]: "sleeps (xs @ ys) = sleeps xs @ sleeps ys"
  by (induction xs) (simp_all add: sleeps_def split: option.splits)

lemma sleeps_simps [simp]:
  "sleeps [] = []" "sleeps (Sleep d # evs) = d # sleeps evs"
  "slept ev = None \<Longrightarrow> sleeps (ev # evs) = sleeps evs"
  by (simp_all add: sleeps_def)

lemma sleeps_poll_events:
  "(\<And>r. slept (ev r) = None) \<Longrightarrow> sleeps (poll_events ev sts) = replicate (length sts) 1"
  by (induction sts) (simp_all add: poll_events_def)

lemma filter_poll_events:
  "(\<And>r. P (ev r)) \<Longrightarrow> \<not> P (Sleep 1) \<Longrightarrow> length (filter P (poll_events ev sts)) = length sts"
  by (induction sts) (simp_all add: poll_events_def)

lemma poll_while_bound:
  assumes run: "poll_while test fetch st c w = (res, w')"
    and fetch: "\<And>w r w1. fetch w = (r, w1) \<Longrightarrow> trace w1 = trace w @ [ev r]"
    and ev: "\<And>r. slept (ev r) = None" "\<And>r. P (ev r)" "\<not> P (Sleep 1)"
  shows "\<exists>evs k. trace w' = trace w @ evs \<and> c + k \<le> max c 120
           \<and> sleeps evs = replicate k 1 \<and> length (filter P evs) \<le> 120 - c"
proof (cases res)
  case (Inl e)
  with run have "poll_while test fetch st c w = (Inl e, w')" by simp
  from poll_while_failure [where ev = ev, OF this fetch]
  obtain sts where sts: "c + length sts < 120"
    "trace w' = trace w @ poll_events ev sts @ [ev (Inl e)]" by blast
  show ?thesis
    using sts ev
    by (intro exI [of _ "poll_events ev sts @ [ev (Inl e)]"] exI [of _ "length sts"])
       (simp add: sleeps_poll_events filter_poll_events)
next
  case (Inr p)
  obtain st' n where "p = (st', n)" by (cases p)
  with Inr run have "poll_while test fetch st c w = (Inr (st', n), w')" by simp
  from poll_while_success [where ev = ev, OF this fetch]
  obtain sts where sts: "n = c + length sts" "n \<le> max c 120"
    "trace w' = trace w @ poll_events ev sts" by blast
  show ?thesis
    using sts ev
    by (intro exI [of _ "poll_events ev sts"] exI [of _ "length sts"])
       (auto simp: sleeps_poll_events filter_poll_events)
qed

lemma last_observed_append:
  "last_observed (xs @ ys) = (case last_observed ys of Some x \<Rightarrow> Some x | None \<Rightarrow> last_observed xs)"
  by (induction xs) (auto split: option.splits)

lemma last_observed_poll_events:
  "last_observed (poll_events (GetSession i) sts) = (if sts = [] then None else Some (i, last sts))"
  by (induction sts) (auto simp: poll_events_def split: option.splits)

lemma trace_call_get_session:
  "call_get_session self i w = (r, w1) \<Longrightarrow> trace w1 = trace w @ [GetSession i r]"
  by (auto simp: call_get_session_def split: prod.splits)

lemma trace_call_fetch_data:
  "call_fetch_data self i c w = (r, w1) \<Longrightarrow> trace w1 = trace w @ [FetchData i c r]"
  by (auto simp: call_fetch_data_def split: prod.splits)

subsection \<open>Auxiliary facts: creating a session\<close>



lemma start_session_observed:
  assumes "start_session self props w = (Inr (rid, st, n), w')"
  shows "\<exists>evs. trace w' = trace w @ evs \<and> last_observed evs = Some (rid, st)"
proof -
  from assms obtain w1 st0 w2 where
    c: "call_create_session self props w = (Inr rid, w1)"
    and g: "call_get_session self rid w1 = (Inr st0, w2)"
    and l: "poll_while (\<lambda>st. st_state st = ''starting'') (call_get_session self rid) st0 0 w2
              = (Inr (st, n), w')"
    by (auto simp: start_session_def split: prod.splits sum.splits)
  have f: "\<And>w r w1. call_get_session self rid w = (r, w1)
               \<Longrightarrow> trace w1 = trace w @ [GetSession rid r]"
    by (rule trace_call_get_session)
  from poll_while_success [where ev = "GetSession rid", OF l f]
  obtain sts where sts: "trace w' = trace w2 @ poll_events (GetSession rid) sts"
    "st = last (st0 # sts)" by blast
  from c have t1: "trace w1 = trace w @ [CreateSession props (Inr rid)]"
    by (auto simp: call_create_session_def split: prod.splits)
  from trace_call_get_session [OF g] t1 sts
  have "trace w' = trace w @ ([CreateSession props (Inr rid), GetSession rid (Inr st0)]
                               @ poll_events (GetSession rid) sts)"
    by simp
  moreover have "last_observed ([CreateSession props (Inr rid), GetSession rid (Inr st0)]
                               @ poll_events (GetSession rid) sts) = Some (rid, st)"
    using sts(2) by (simp add: last_observed_append last_observed_poll_events)
  ultimately show ?thesis by blast
qed

lemma create_session_new_observed:
  assumes "create_session_new self lang properties w = (Inr session, w')"
  shows "\<exists>evs st. trace w' = trace w @ evs \<and> last_observed evs = Some (s_id session, st)
           \<and> st_state st = ''idle'' \<and> profile w' (get_session_key self) = Some session"
proof -
  from assms obtain props rid st n w1 where
    s: "start_session self props w = (Inr (rid, st, n), w1)"
    and idle: "st_state st = ''idle''"
    and sess: "session = \<lparr> s_type = lang, s_id = rid, s_properties = to_properties (Some props) \<rparr>"
    and w': "w' = set_session_info_to_user self session w1"
    by (auto simp: create_session_new_def Let_def split: prod.splits sum.splits if_splits)
  from start_session_observed [OF s] obtain evs where
    evs: "trace w1 = trace w @ evs" "last_observed evs = Some (rid, st)" by blast
  have "trace w' = trace w @ (evs @ [StoreWrite (get_session_key self)])"
    using w' evs by (simp add: set_session_info_to_user_def)
  moreover have "last_observed (evs @ [StoreWrite (get_session_key self)]) = Some (s_id session, st)"
    using evs sess by (simp add: last_observed_append)
  moreover have "profile w' (get_session_key self) = Some session"
    using w' by (simp add: set_session_info_to_user_def)
  ultimately show ?thesis using idle by blast
qed



subsection \<open>Auxiliary facts: the property dicts\<close>

lemma map_of_dict_update:
  "map_of (dict_update d ps) = map_of d ++ map_of (rev ps)"
proof (induction ps arbitrary: d)
  case Nil
  then show ?case by (simp add: dict_update_def)
next
  case (Cons p ps)
  have "dict_update d (p # ps) = dict_update (AList.update (fst p) (snd p) d) ps"
    by (simp add: dict_update_def split: prod.splits)
  then show ?case
    using Cons.IH [of "AList.update (fst p) (snd p) d"]
    by (auto simp: update_conv' map_add_def fun_eq_iff split: option.splits)
qed

lemma map_of_py_dict: "map_of (py_dict ps) = map_of (rev ps)"
  by (simp add: py_dict_def map_of_dict_update)

lemma coerce_simps [simp]:
  "coerce (VStr s) = VList (map VStr (split_on CHR '','' s))"
  "coerce (VList l) = VList l"
  by (simp_all add: coerce_def)

lemma coerce_lists_lookup:
  "coerce_lists keys props = Inr props2 \<Longrightarrow>
     map_of props2 n = (if n \<in> set keys then map_option coerce (map_of props n) else map_of props n)"
proof (induction keys arbitrary: props)
  case Nil
  then show ?case by simp
next
  case (Cons key keys)
  show ?case
  proof (cases "map_of props key")
    case None
    with Cons.prems have "coerce_lists keys props = Inr props2" by simp
    from Cons.IH [OF this] None show ?thesis by auto
  next
    case (Some v)
    show ?thesis
    proof (cases v)
      case (VStr s)
      with Some Cons.prems
      have "coerce_lists keys (AList.update key (VList (map VStr (split_on CHR '','' s))) props) = Inr props2"
        by simp
      from Cons.IH [OF this] Some VStr show ?thesis
        by (auto simp: update_conv')
    next
      case (VList l)
      with Some Cons.prems have "coerce_lists keys props = Inr props2" by simp
      from Cons.IH [OF this] Some VList show ?thesis
        by (auto split: option.splits)
    qed (use Some Cons.prems in simp_all)
  qed
qed

lemma distinct_names: "distinct (map name PROPERTIES)"
  by code_simp

lemma kind_no_property: "''kind'' \<notin> set (map name PROPERTIES)"
  by code_simp

lemma map_of_rev_distinct:
  assumes "distinct (map fst xs)"
  shows "map_of (rev xs) = map_of xs"
proof
  fix k
  have dr: "distinct (map fst (rev xs))"
    using assms by (simp add: rev_map [symmetric])
  show "map_of (rev xs) k = map_of xs k"
  proof (cases "map_of xs k")
    case None
    then have "k \<notin> fst ` set (rev xs)" by (simp add: map_of_eq_None_iff)
    then have "map_of (rev xs) k = None" by (metis map_of_eq_None_iff)
    with None show ?thesis by simp
  next
    case (Some v)
    then have "(k, v) \<in> set (rev xs)" by (auto dest: map_of_SomeD)
    from map_of_is_SomeI [OF dr this] Some show ?thesis by simp
  qed
qed

lemma distinct_dict_update:
  "distinct (map fst d) \<Longrightarrow> distinct (map fst (dict_update d ps))"
proof (induction ps arbitrary: d)
  case Nil
  then show ?case by (simp add: dict_update_def)
next
  case (Cons p ps)
  have "dict_update d (p # ps) = dict_update (AList.update (fst p) (snd p) d) ps"
    by (simp add: dict_update_def split: prod.splits)
  with Cons.IH [OF distinct_update [OF Cons.prems]] show ?case by simp
qed

lemma map_of_rev_py_dict: "map_of (rev (py_dict ps)) = map_of (rev ps)"
proof -
  have "distinct (map fst (py_dict ps))"
    unfolding py_dict_def by (rule distinct_dict_update) simp
  from map_of_rev_distinct [OF this] show ?thesis
    by (simp add: map_of_py_dict)
qed

lemma map_of_defaults:
  "d \<in> set PROPERTIES \<Longrightarrow>
     map_of (rev (map (\<lambda>p. (name p, pvalue p)) PROPERTIES)) (name d) = Some (pvalue d)"
proof -
  assume d: "d \<in> set PROPERTIES"
  have "distinct (map fst (map (\<lambda>p. (name p, pvalue p)) PROPERTIES))"
    using distinct_names by (simp add: comp_def)
  then have "map_of (rev (map (\<lambda>p. (name p, pvalue p)) PROPERTIES))
               = map_of (map (\<lambda>p. (name p, pvalue p)) PROPERTIES)"
    by (rule map_of_rev_distinct)
  moreover have "map_of (map (\<lambda>p. (name p, pvalue p)) PROPERTIES) (name d) = Some (pvalue d)"
    using d \<open>distinct (map fst (map (\<lambda>p. (name p, pvalue p)) PROPERTIES))\<close>
    by (intro map_of_is_SomeI) auto
  ultimately show ?thesis by simp
qed

lemma get_livy_props_lookup:
  assumes ok: "get_livy_props lang properties = Inr props"
    and d: "d \<in> set PROPERTIES"
  shows "map_of props (name d)
           = Some (livy_value (name d)
                     (case supplied properties (name d) of Some v \<Rightarrow> v | None \<Rightarrow> pvalue d))"
proof -
  let ?props0 = "py_dict (map (\<lambda>p. (name p, pvalue p)) PROPERTIES)"
  let ?merged = "case supplied properties (name d) of Some v \<Rightarrow> v | None \<Rightarrow> pvalue d"
  define props1 where "props1 = (case properties of
                      None \<Rightarrow> ?props0
                    | Some ps \<Rightarrow>
                        dict_update ?props0
                          (py_dict (map (\<lambda>p. (the (e_name p), the (e_value p)))
                             (filter (\<lambda>p. e_name p \<noteq> None \<and> e_value p \<noteq> None) ps))))"
  have m1: "map_of props1 (name d) = Some ?merged"
    using map_of_defaults [OF d]
    by (cases properties)
       (auto simp: props1_def supplied_def map_of_py_dict map_of_dict_update map_add_def
             map_of_rev_py_dict
             split: option.splits)
  from ok obtain props2 c confs cd where
    cl: "coerce_lists [''archives'', ''jars'', ''files'', ''pyFiles''] props1 = Inr props2"
    and c: "map_of props2 ''conf'' = Some c"
    and it: "py_iter c = Inr confs"
    and cd: "conf_dict confs [] = Inr cd"
    and props: "props = AList.update ''kind'' (VStr (if lang = ''sparksql'' then ''sql'' else lang))
                          (AList.update ''conf'' (VDict cd) props2)"
    by (auto simp: get_livy_props_def Let_def props1_def split: sum.splits option.splits)
  note l2 = coerce_lists_lookup [OF cl]
  have nk: "name d \<noteq> ''kind''"
  proof
    assume "name d = ''kind''"
    with d have "''kind'' \<in> name ` set PROPERTIES" by (metis imageI)
    with kind_no_property show False by simp
  qed
  show ?thesis
  proof (cases "name d = ''conf''")
    case True
    with l2 [of "''conf''"] m1 c have "c = ?merged" by simp
    with True it cd props show ?thesis
      by (simp add: update_conv' livy_value_def)
  next
    case False
    with l2 [of "name d"] m1 props nk show ?thesis
      by (auto simp: update_conv' livy_value_def)
  qed
qed

subsection \<open>Auxiliary facts: statements and their results\<close>

lemma check_status_loop_success:
  assumes "check_status_loop self session c w = (Inr (st, n), w')"
  shows "\<exists>st0 sts.
           trace w' = trace w @ [FetchData (s_id session) c (Inr st0)]
                        @ poll_events (FetchData (s_id session) c) sts
         \<and> n = length sts \<and> n \<le> 120 \<and> st = last (st0 # sts)
         \<and> (\<forall>s \<in> set (butlast (st0 # sts)). f_state s \<in> set [''running'', ''waiting''])
         \<and> (f_state st \<notin> set [''running'', ''waiting''] \<or> n = 120)"
proof -
  from assms obtain st0 w1 where
    g: "call_fetch_data self (s_id session) c w = (Inr st0, w1)"
    and l: "poll_while (\<lambda>st. f_state st \<in> set [''running'', ''waiting''])
              (call_fetch_data self (s_id session) c) st0 0 w1 = (Inr (st, n), w')"
    by (auto simp: check_status_loop_def split: prod.splits sum.splits)
  have f: "\<And>w r w1. call_fetch_data self (s_id session) c w = (r, w1)
               \<Longrightarrow> trace w1 = trace w @ [FetchData (s_id session) c r]"
    by (rule trace_call_fetch_data)
  from poll_while_success [where ev = "FetchData (s_id session) c", OF l f]
  obtain sts where sts: "n = length sts" "n \<le> 120"
    "trace w' = trace w1 @ poll_events (FetchData (s_id session) c) sts"
    "st = last (st0 # sts)"
    "\<forall>s \<in> set (butlast (st0 # sts)). f_state s \<in> set [''running'', ''waiting'']"
    "f_state st \<notin> set [''running'', ''waiting''] \<or> 120 \<le> n" by auto
  from trace_call_fetch_data [OF g] sts
  have "trace w' = trace w @ [FetchData (s_id session) c (Inr st0)]
                     @ poll_events (FetchData (s_id session) c) sts"
    by simp
  with sts show ?thesis by (intro exI [of _ st0] exI [of _ sts]) auto
qed

lemma check_status_loop_bound:
  "\<exists>evs k. trace (snd (check_status_loop self session c w)) = trace w @ evs \<and> k \<le> 120
       \<and> sleeps evs = replicate k 1 \<and> length (filter is_fetch_data evs) \<le> 121"
proof -
  obtain r1 w1 where g: "call_fetch_data self (s_id session) c w = (r1, w1)"
    by (cases "call_fetch_data self (s_id session) c w")
  note t1 = trace_call_fetch_data [OF g]
  show ?thesis
  proof (cases r1)
    case (Inl e)
    with g t1 show ?thesis
      by (intro exI [of _ "[FetchData (s_id session) c r1]"] exI [of _ 0])
         (simp add: check_status_loop_def)
  next
    case st0: (Inr st0)
    obtain r2 w2 where l:
      "poll_while (\<lambda>st. f_state st \<in> set [''running'', ''waiting''])
         (call_fetch_data self (s_id session) c) st0 0 w1 = (r2, w2)"
      by (cases "poll_while (\<lambda>st. f_state st \<in> set [''running'', ''waiting''])
         (call_fetch_data self (s_id session) c) st0 0 w1")
    have f: "\<And>w r w1. call_fetch_data self (s_id session) c w = (r, w1)
               \<Longrightarrow> trace w1 = trace w @ [FetchData (s_id session) c r]"
      by (rule trace_call_fetch_data)
    from poll_while_bound [where ev = "FetchData (s_id session) c" and P = is_fetch_data, OF l f]
    obtain evs k where evs: "trace w2 = trace w1 @ evs" "k \<le> 120"
      "sleeps evs = replicate k 1" "length (filter is_fetch_data evs) \<le> 120"
      by auto
    have "snd (check_status_loop self session c w) = w2"
      using g l st0 by (simp add: check_status_loop_def)
    with evs t1 st0 show ?thesis
      by (intro exI [of _ "[FetchData (s_id session) c r1] @ evs"] exI [of _ k]) simp
  qed
qed

lemma running_five_times:
  assumes "fetch_data (api self) (s_id session) c (remote w) = (Inr s1, r1)" "f_state s1 = ''running''"
    and "fetch_data (api self) (s_id session) c r1 = (Inr s2, r2)" "f_state s2 = ''running''"
    and "fetch_data (api self) (s_id session) c r2 = (Inr s3, r3)" "f_state s3 = ''running''"
    and "fetch_data (api self) (s_id session) c r3 = (Inr s4, r4)" "f_state s4 = ''running''"
    and "fetch_data (api self) (s_id session) c r4 = (Inr s5, r5)" "f_state s5 = ''running''"
    and "fetch_data (api self) (s_id session) c r5 = (Inr s6, r6)" "f_state s6 = ''available''"
  shows "fst (check_status_loop self session c w) = Inr (s6, 5)
       \<and> trace (snd (check_status_loop self session c w))
           = trace w @ [FetchData (s_id session) c (Inr s1),
                        FetchData (s_id session) c (Inr s2), Sleep 1,
                        FetchData (s_id session) c (Inr s3), Sleep 1,
                        FetchData (s_id session) c (Inr s4), Sleep 1,
                        FetchData (s_id session) c (Inr s5), Sleep 1,
                        FetchData (s_id session) c (Inr s6), Sleep 1]"
  using assms
  by (simp add: check_status_loop_def call_fetch_data_def poll_while.simps emit_def)



subsection \<open>Auxiliary facts: the regular expressions\<close>














subsection \<open>Auxiliary facts: the sweep of unused sessions\<close>

lemma closed_ids_append [simp]: "closed_ids (xs @ ys) = closed_ids xs @ closed_ids ys"
  by (induction xs) (simp_all add: closed_ids_def split: option.splits)

lemma closed_ids_simps [simp]:
  "closed_ids [] = []" "closed_ids (Close i r # evs) = i # closed_ids evs"
  "closed_id ev = None \<Longrightarrow> closed_ids (ev # evs) = closed_ids evs"
  by (simp_all add: closed_ids_def)

lemma close_session_closed_ids:
  "i \<noteq> None \<Longrightarrow>
     closed_ids (trace (snd (close_session self i w))) = closed_ids (trace w) @ [i]"
  by (auto simp: close_session_def call_close_def close_session_finally_def
      get_session_info_from_user_def remove_session_info_from_user_def
      split: prod.splits sum.splits exn.splits option.splits)

lemma close_unused_loop_completed:
  assumes "close_unused_loop self (Some stored) sessions w = (Inr (), w')"
    and "\<forall>s \<in> set sessions. rs_id s \<noteq> None"
  shows "closed_ids (trace w')
           = closed_ids (trace w)
             @ map rs_id (filter (\<lambda>s. rs_owner s = Some (username self) \<and> rs_id s \<noteq> s_id stored
                                       \<and> rs_state s \<in> set unused_states) sessions)"
  using assms
proof (induction sessions arbitrary: w)
  case Nil
  then show ?case by simp
next
  case (Cons s rest)
  let ?sel = "rs_owner s = Some (username self) \<and> rs_id s \<noteq> s_id stored
                \<and> rs_state s \<in> set unused_states"
  show ?case
  proof (cases ?sel)
    case False
    with Cons.prems have "close_unused_loop self (Some stored) rest w = (Inr (), w')"
      by (auto split: if_splits)
    from Cons.IH [OF this] Cons.prems(2) False show ?thesis by auto
  next
    case True
    obtain r w1 where c: "close_session self (rs_id s) w = (r, w1)"
      by (cases "close_session self (rs_id s) w")
    with True Cons.prems(1) have rest: "close_unused_loop self (Some stored) rest w1 = (Inr (), w')"
      by (cases r) auto
    from Cons.prems(2) have "rs_id s \<noteq> None" by simp
    from close_session_closed_ids [OF this, of self w] c
    have "closed_ids (trace w1) = closed_ids (trace w) @ [rs_id s]" by simp
    with Cons.IH [OF rest] Cons.prems(2) True show ?thesis by simp
  qed
qed

subsection \<open>Resolving or creating a session\<close>

text \<open>
  C1. Whenever \<open>create_session\<close> returns a session, the most recent state that
  \<open>get_session\<close> reported is a state of that session's id, it was reported during this
  very call, and it is none of dead, shutting_down, error, killed: either the session is
  the stored one and its fresh check passed, or the state is idle (the session is new).
\<close>

theorem create_session_returns_healthy:
  assumes "fst (create_session self lang properties w) = Inr session"
  shows "\<exists>st. last_observed (drop (length (trace w)) (trace (snd (create_session self lang properties w))))
               = Some (s_id session, st)
            \<and> st_state st \<notin> set unhealthy_states
            \<and> (profile w (get_session_key self) = Some session \<or> st_state st = ''idle'')"
proof -
  obtain w' where run: "create_session self lang properties w = (Inr session, w')"
    using assms by (cases "create_session self lang properties w") simp
  let ?w1 = "emit (StoreRead (get_session_key self)) w"
  show ?thesis
  proof (cases "profile w (get_session_key self)")
    case None
    with run have "create_session_new self lang properties ?w1 = (Inr session, w')"
      by (simp add: create_session_def get_session_info_from_user_def)
    from create_session_new_observed [OF this] obtain evs st where
      "trace w' = trace ?w1 @ evs" "last_observed evs = Some (s_id session, st)"
      "st_state st = ''idle''" by blast
    then show ?thesis using run
      by (intro exI [of _ st]) (simp add: last_observed_append unhealthy_states_def)
  next
    case (Some stored)
    obtain present w2 where chk: "check_session self stored ?w1 = (present, w2)"
      by (cases "check_session self stored ?w1")
    show ?thesis
    proof (cases present)
      case None
      with run Some chk have "create_session_new self lang properties w2 = (Inr session, w')"
        by (simp add: create_session_def get_session_info_from_user_def)
      from create_session_new_observed [OF this] obtain evs st where
        evs: "trace w' = trace w2 @ evs" "last_observed evs = Some (s_id session, st)"
        "st_state st = ''idle''" by blast
      from chk obtain r where "trace w2 = trace ?w1 @ [GetSession (s_id stored) r]"
        by (auto simp: check_session_def dest: trace_call_get_session split: prod.splits sum.splits)
      with evs show ?thesis using run
        by (intro exI [of _ st]) (simp add: last_observed_append unhealthy_states_def)
    next
      case (Some st)
      with run \<open>profile w (get_session_key self) = Some stored\<close> chk
      have eq: "session = stored" "w' = w2"
        by (simp_all add: create_session_def get_session_info_from_user_def)
      from chk Some have "trace w2 = trace ?w1 @ [GetSession (s_id stored) (Inr st)]"
        and "st_state st \<notin> set unhealthy_states"
        by (auto simp: check_session_def dest: trace_call_get_session split: prod.splits sum.splits if_splits)
      with eq \<open>profile w (get_session_key self) = Some stored\<close> show ?thesis using run
        by (intro exI [of _ st]) simp
    qed
  qed
qed

theorem create_session_returns_healthy_witness:
  "fst (create_session alice ''pyspark'' None busy_7) = Inr (stored_session 7)
   \<and> last_observed (drop (length (trace busy_7)) (trace (snd (create_session alice ''pyspark'' None busy_7))))
       = Some (Some 7, busy_status)
   \<and> st_state busy_status \<notin> set unhealthy_states"
proof -
  have run: "fst (create_session alice ''pyspark'' None busy_7) = Inr (stored_session 7)"
    by code_simp
  have tr: "trace (snd (create_session alice ''pyspark'' None busy_7))
              = [StoreRead ''alice-pyspark'', GetSession (Some 7) (Inr busy_status)]"
    by code_simp
  have t0: "trace busy_7 = []"
    by (simp add: busy_7_def world_of_def)
  from create_session_returns_healthy [OF run] run show ?thesis
    by (auto simp: tr t0 stored_session_def)
qed



subsection \<open>The property merge\<close>

text \<open>
  C3. The specification reads: the merge yields exactly the defaults with each name that the
  caller supplies overridden by the caller's value, all other defaults unchanged, in
  the order of the defaults (\<open>merge_spec\<close>). The code does more than that: before
  the request is sent \<open>get_livy_props\<close> turns the \<open>conf\<close> list into a dict and
  splits a string under archives, jars, files or pyFiles at its commas, and it is this
  dict that \<open>to_properties\<close> reads. With the caller asking only for driverMemory 2G,
  the \<open>conf\<close> entry of the result is \<open>{}\<close> where the default is \<open>[]\<close>.
\<close>

theorem property_merge_counterexample:
  "get_livy_props ''scala'' (Some driver_2g) = Inr scala_2g_props
   \<and> to_properties (Some scala_2g_props) \<noteq> merge_spec (Some driver_2g) PROPERTIES
   \<and> name (to_properties (Some scala_2g_props) ! 0) = ''conf''
   \<and> pvalue (to_properties (Some scala_2g_props) ! 0) = VDict []
   \<and> pvalue (merge_spec (Some driver_2g) PROPERTIES ! 0) = VList []"
  by code_simp

text \<open>
  C3, as the code has it. Whenever \<open>get_livy_props\<close> succeeds, the properties stored
  with the session are the defaults in their order, every field but the value unchanged,
  and the value of each name is the merged value (the caller's last value for the name
  when there is one, the default otherwise) as \<open>livy_value\<close> leaves it: the \<open>conf\<close>
  list as a dict, a string under one of the four list-valued names split at its commas,
  any other value as it is. The request sent to the service carries the same value under
  each default name.
\<close>

theorem property_merge:
  assumes "get_livy_props lang properties = Inr props"
  shows "to_properties (Some props)
           = map (\<lambda>d. d\<lparr>pvalue := livy_value (name d)
                          (case supplied properties (name d) of Some v \<Rightarrow> v | None \<Rightarrow> pvalue d)\<rparr>)
               PROPERTIES
       \<and> (\<forall>d \<in> set PROPERTIES.
            map_of props (name d)
              = Some (livy_value (name d)
                        (case supplied properties (name d) of Some v \<Rightarrow> v | None \<Rightarrow> pvalue d)))"
proof
  show "to_properties (Some props)
           = map (\<lambda>d. d\<lparr>pvalue := livy_value (name d)
                          (case supplied properties (name d) of Some v \<Rightarrow> v | None \<Rightarrow> pvalue d)\<rparr>)
               PROPERTIES"
    unfolding to_properties_def
    by (simp add: get_livy_props_lookup [OF assms] cong: map_cong)
  show "\<forall>d \<in> set PROPERTIES.
            map_of props (name d)
              = Some (livy_value (name d)
                        (case supplied properties (name d) of Some v \<Rightarrow> v | None \<Rightarrow> pvalue d))"
    using get_livy_props_lookup [OF assms] by blast
qed

theorem property_merge_witness:
  "get_livy_props ''scala'' (Some driver_2g) = Inr scala_2g_props
   \<and> map (\<lambda>p. (name p, pvalue p)) (to_properties (Some scala_2g_props))
       = [(''conf'', VDict []), (''jars'', VList []), (''files'', VList []),
          (''pyFiles'', VList []), (''driverMemory'', VStr ''2G''), (''driverCores'', VInt 1),
          (''executorMemory'', VStr ''1G''), (''executorCores'', VInt 1),
          (''queue'', VStr ''default''), (''archives'', VList [])]"
proof -
  have ok: "get_livy_props ''scala'' (Some driver_2g) = Inr scala_2g_props"
    by code_simp
  have "map (\<lambda>p. (name p, pvalue p)) (to_properties (Some scala_2g_props))
          = map (\<lambda>p. (name p, pvalue p))
              (map (\<lambda>d. d\<lparr>pvalue := livy_value (name d)
                          (case supplied (Some driver_2g) (name d) of Some v \<Rightarrow> v | None \<Rightarrow> pvalue d)\<rparr>)
               PROPERTIES)"
    by (simp only: property_merge [OF ok, THEN conjunct1])
  also have "\<dots> = [(''conf'', VDict []), (''jars'', VList []), (''files'', VList []),
          (''pyFiles'', VList []), (''driverMemory'', VStr ''2G''), (''driverCores'', VInt 1),
          (''executorMemory'', VStr ''1G''), (''executorCores'', VInt 1),
          (''queue'', VStr ''default''), (''archives'', VList [])]"
    by code_simp
  finally show ?thesis using ok by simp
qed

subsection \<open>Polling a statement and reading its result\<close>

text \<open>
  C4. The polling loop of \<open>_check_status_and_fetch_result\<close>. \<open>check_status_loop\<close>
  fetches the status once and then again in a loop. (1) Whatever the service answers,
  the loop body runs at most 120 times: the call sleeps \<open>k \<le> 120\<close> times, one second
  each, and calls \<open>fetch_data\<close> at most 121 times (the first fetch and at most 120 in
  the loop). (2) When it returns, every state seen before the last one was running or
  waiting, and the last one is neither unless the loop ran 120 times. (3) With a service
  that answers running five times and then available, it returns the available status
  after the sixth fetch, the loop having run five times. (The method then reads the
  result with one more \<open>fetch_data\<close>, inside \<open>_fetch_result\<close>.)
\<close>

theorem check_status_polling:
  "(\<exists>evs k. trace (snd (check_status_loop self session c w)) = trace w @ evs \<and> k \<le> 120
       \<and> sleeps evs = replicate k 1 \<and> length (filter is_fetch_data evs) \<le> 121)
   \<and> (check_status_loop self session c w = (Inr (st, n), w') \<longrightarrow>
        (\<exists>st0 sts.
           trace w' = trace w @ [FetchData (s_id session) c (Inr st0)]
                        @ poll_events (FetchData (s_id session) c) sts
         \<and> n = length sts \<and> n \<le> 120 \<and> st = last (st0 # sts)
         \<and> (\<forall>s \<in> set (butlast (st0 # sts)). f_state s \<in> set [''running'', ''waiting''])
         \<and> (f_state st \<notin> set [''running'', ''waiting''] \<or> n = 120)))
   \<and> (fetch_data (api self) (s_id session) c (remote w) = (Inr s1, r1) \<and> f_state s1 = ''running''
        \<and> fetch_data (api self) (s_id session) c r1 = (Inr s2, r2) \<and> f_state s2 = ''running''
        \<and> fetch_data (api self) (s_id session) c r2 = (Inr s3, r3) \<and> f_state s3 = ''running''
        \<and> fetch_data (api self) (s_id session) c r3 = (Inr s4, r4) \<and> f_state s4 = ''running''
        \<and> fetch_data (api self) (s_id session) c r4 = (Inr s5, r5) \<and> f_state s5 = ''running''
        \<and> fetch_data (api self) (s_id session) c r5 = (Inr s6, r6) \<and> f_state s6 = ''available'' \<longrightarrow>
          fst (check_status_loop self session c w) = Inr (s6, 5)
        \<and> trace (snd (check_status_loop self session c w))
            = trace w @ [FetchData (s_id session) c (Inr s1),
                         FetchData (s_id session) c (Inr s2), Sleep 1,
                         FetchData (s_id session) c (Inr s3), Sleep 1,
                         FetchData (s_id session) c (Inr s4), Sleep 1,
                         FetchData (s_id session) c (Inr s5), Sleep 1,
                         FetchData (s_id session) c (Inr s6), Sleep 1])"
  using check_status_loop_bound [of self session c w]
    check_status_loop_success [of self session c w st n w']
    running_five_times [of self session c w s1 r1 s2 r2 s3 r3 s4 r4 s5 r5 s6 r6]
  by blast

theorem check_status_polling_witness:
  "fst (check_status_loop alice (stored_session 7) (Some 0) running_five)
     = Inr (statement_status ''available'', 5)
   \<and> trace (snd (check_status_loop alice (stored_session 7) (Some 0) running_five))
     = [FetchData (Some 7) (Some 0) (Inr (statement_status ''running'')),
        FetchData (Some 7) (Some 0) (Inr (statement_status ''running'')), Sleep 1,
        FetchData (Some 7) (Some 0) (Inr (statement_status ''running'')), Sleep 1,
        FetchData (Some 7) (Some 0) (Inr (statement_status ''running'')), Sleep 1,
        FetchData (Some 7) (Some 0) (Inr (statement_status ''running'')), Sleep 1,
        FetchData (Some 7) (Some 0) (Inr (statement_status ''available'')), Sleep 1]"
proof -
  let ?f = "fetch_data (api alice) (s_id (stored_session 7)) (Some 0)"
  let ?g1 = "?f (remote running_five)"
  let ?g2 = "?f (snd ?g1)"
  let ?g3 = "?f (snd ?g2)"
  let ?g4 = "?f (snd ?g3)"
  let ?g5 = "?f (snd ?g4)"
  let ?g6 = "?f (snd ?g5)"
  have g: "?g1 = (Inr (statement_status ''running''), snd ?g1)"
    "?g2 = (Inr (statement_status ''running''), snd ?g2)"
    "?g3 = (Inr (statement_status ''running''), snd ?g3)"
    "?g4 = (Inr (statement_status ''running''), snd ?g4)"
    "?g5 = (Inr (statement_status ''running''), snd ?g5)"
    "?g6 = (Inr (statement_status ''available''), snd ?g6)"
    by (simp_all add: alice_def scripted_api_def running_five_def world_of_def
        no_answers_def next_answer_def)
  have s: "f_state (statement_status ''running'') = ''running''"
    "f_state (statement_status ''available'') = ''available''"
    by (simp_all add: statement_status_def)
  have k: "trace running_five = []" "s_id (stored_session 7) = Some 7"
    by (simp_all add: running_five_def world_of_def stored_session_def)
  note scenario = check_status_polling
      [where self = alice and session = "stored_session 7" and c = "Some 0" and w = running_five,
        THEN conjunct2, THEN conjunct2, rule_format,
        OF conjI [OF g(1) conjI [OF s(1) conjI [OF g(2) conjI [OF s(1) conjI [OF g(3)
             conjI [OF s(1) conjI [OF g(4) conjI [OF s(1) conjI [OF g(5) conjI [OF s(1)
             conjI [OF g(6) s(2)]]]]]]]]]]]]
  show ?thesis
    using scenario by (simp add: k)
qed




subsection \<open>Closing a session\<close>

text \<open>
  C6. Closing a session with an id: when the remote \<open>close\<close> raises a \<open>RestException\<close>
  with code 404 or 500 the caller gets \<open>SessionExpired\<close> wrapping it; when it succeeds
  the caller gets \<open>{'session': id, 'status': 0}\<close>. On every path the profile afterwards
  is the profile before with the entry of the user's session key removed when that entry
  holds the closed id, and is unchanged when it does not (or when there is no entry).
\<close>

theorem close_session_expired_and_removal:
  assumes "session_id \<noteq> None"
    and "close (api self) session_id (remote w) = (r, rem')"
  shows "(\<forall>code msg. r = Inl (RestException code msg) \<and> (code = 404 \<or> code = 500) \<longrightarrow>
            fst (close_session self session_id w) = Inl (SessionExpired (RestException code msg)))
       \<and> (\<forall>u. r = Inr u \<longrightarrow>
            fst (close_session self session_id w)
              = Inr (Some \<lparr>cr_session = Some session_id, cr_status = 0\<rparr>))
       \<and> profile (snd (close_session self session_id w))
           = (if (case profile w (get_session_key self) of
                    None \<Rightarrow> False | Some stored \<Rightarrow> s_id stored = session_id)
              then (profile w)(get_session_key self := None) else profile w)
       \<and> remote (snd (close_session self session_id w)) = rem'"
  using assms
  by (auto simp: close_session_def call_close_def close_session_finally_def emit_def
      get_session_info_from_user_def remove_session_info_from_user_def
      split: sum.splits exn.splits option.splits prod.splits)

theorem close_session_expired_and_removal_witness:
  "Some 7 \<noteq> (None :: sid)
   \<and> close (api alice) (Some 7) (remote (world_of gone_404 [''alice-pyspark'' \<mapsto> stored_session 7]))
       = (Inl (RestException 404 ''Session 7 not found''), no_answers)
   \<and> fst (close_session alice (Some 7) (world_of gone_404 [''alice-pyspark'' \<mapsto> stored_session 7]))
       = Inl (SessionExpired (RestException 404 ''Session 7 not found''))
   \<and> profile (snd (close_session alice (Some 7) (world_of gone_404 [''alice-pyspark'' \<mapsto> stored_session 7])))
       = Map.empty
   \<and> profile (snd (close_session alice (Some 7) (world_of gone_404 [''alice-pyspark'' \<mapsto> stored_session 8])))
       = [''alice-pyspark'' \<mapsto> stored_session 8]"
proof -
  have c: "close (api alice) (Some 7) (remote (world_of gone_404 p))
       = (Inl (RestException 404 ''Session 7 not found''), no_answers)" for p
    by (simp add: alice_def scripted_api_def gone_404_def no_answers_def world_of_def next_answer_def)
  have k: "get_session_key alice = ''alice-pyspark''"
    by (simp add: get_session_key_def alice_def)
  show ?thesis
    using close_session_expired_and_removal [OF _ c, of "[''alice-pyspark'' \<mapsto> stored_session 7]"]
      close_session_expired_and_removal [OF _ c, of "[''alice-pyspark'' \<mapsto> stored_session 8]"]
      c [of "[''alice-pyspark'' \<mapsto> stored_session 7]"]
    by (simp add: k world_of_def stored_session_def)
qed

text \<open>
  C10. \<open>close_session\<close> on a session whose id is \<open>None\<close> returns \<open>{'status': -1}\<close>
  and leaves the world as it was: no call to the remote service, no read of the profile
  entry and no change of it (the trace, the profile and the remote state are the same).
\<close>

theorem close_session_no_id:
  "close_session self None w = (Inr (Some \<lparr>cr_session = None, cr_status = - 1\<rparr>), w)"
  by (simp add: close_session_def)

subsection \<open>Submitting a statement\<close>



subsection \<open>Closing unused sessions\<close>

text \<open>
  C8. \<open>_close_unused_sessions\<close>. (1) A failure to list the sessions is logged (at
  debug level) and the method returns normally, having closed nothing. (2) When the
  method returns normally, it has called \<open>close\<close> for exactly the listed sessions whose
  owner is the user, whose id differs from the stored session's id and whose state is
  idle, shutting_down, error, dead or killed, in the order of the listing. (3) But a
  failure to close one session does abort the sweep: with two idle sessions of the user
  listed and the first \<open>close\<close> answered with 404, \<open>close_session\<close> raises
  \<open>SessionExpired\<close>, the loop does not catch it, nothing is logged, and \<open>close\<close> is
  never called for the second session.
\<close>

theorem close_unused_sessions_sweep:
  "(get_sessions (api self) (remote w) = (Inl e, rem') \<longrightarrow>
       fst (close_unused_sessions self w) = Inr ()
     \<and> trace (snd (close_unused_sessions self w))
         = trace w @ [GetSessions (Inl e), LogDebug (lower (exn_str e))])
   \<and> (get_sessions (api self) (remote w) = (Inr sessions, rem')
        \<and> profile w (get_session_key self) = Some stored
        \<and> (\<forall>s \<in> set sessions. rs_id s \<noteq> None)
        \<and> fst (close_unused_sessions self w) = Inr () \<longrightarrow>
          closed_ids (trace (snd (close_unused_sessions self w)))
            = closed_ids (trace w)
              @ map rs_id (filter (\<lambda>s. rs_owner s = Some (username self) \<and> rs_id s \<noteq> s_id stored
                                        \<and> rs_state s \<in> set unused_states) sessions))
   \<and> fst (close_unused_sessions alice sweep_404) = Inl (SessionExpired not_found_404)
   \<and> trace (snd (close_unused_sessions alice sweep_404))
       = [GetSessions (Inr [idle_session 1, idle_session 2]), StoreRead ''alice-pyspark'',
          Close (Some 1) (Inl not_found_404), StoreRead ''alice-pyspark'']"
proof (intro conjI impI)
  assume "get_sessions (api self) (remote w) = (Inl e, rem')"
  then show "fst (close_unused_sessions self w) = Inr ()"
    and "trace (snd (close_unused_sessions self w))
         = trace w @ [GetSessions (Inl e), LogDebug (lower (exn_str e))]"
    by (simp_all add: close_unused_sessions_def call_get_sessions_def)
next
  assume a: "get_sessions (api self) (remote w) = (Inr sessions, rem')
        \<and> profile w (get_session_key self) = Some stored
        \<and> (\<forall>s \<in> set sessions. rs_id s \<noteq> None)
        \<and> fst (close_unused_sessions self w) = Inr ()"
  let ?w2 = "emit (StoreRead (get_session_key self))
               (emit (GetSessions (Inr sessions)) (w\<lparr>remote := rem'\<rparr>))"
  from a have run: "close_unused_sessions self w = close_unused_loop self (Some stored) sessions ?w2"
    by (simp add: close_unused_sessions_def call_get_sessions_def get_session_info_from_user_def)
  with a have "close_unused_loop self (Some stored) sessions ?w2
                 = (Inr (), snd (close_unused_sessions self w))"
    by (simp add: prod_eq_iff)
  from close_unused_loop_completed [OF this] a
  show "closed_ids (trace (snd (close_unused_sessions self w)))
            = closed_ids (trace w)
              @ map rs_id (filter (\<lambda>s. rs_owner s = Some (username self) \<and> rs_id s \<noteq> s_id stored
                                        \<and> rs_state s \<in> set unused_states) sessions)"
    by simp
next
  show "fst (close_unused_sessions alice sweep_404) = Inl (SessionExpired not_found_404)"
    by code_simp
  show "trace (snd (close_unused_sessions alice sweep_404))
       = [GetSessions (Inr [idle_session 1, idle_session 2]), StoreRead ''alice-pyspark'',
          Close (Some 1) (Inl not_found_404), StoreRead ''alice-pyspark'']"
    by code_simp
qed

theorem close_unused_sessions_sweep_witness:
  "fst (close_unused_sessions alice sweep_ok) = Inr ()
   \<and> closed_ids (trace (snd (close_unused_sessions alice sweep_ok))) = [Some 1, Some 2]
   \<and> fst (close_unused_sessions alice (world_of no_answers Map.empty)) = Inr ()
   \<and> trace (snd (close_unused_sessions alice (world_of no_answers Map.empty)))
       = [GetSessions (Inl (OtherException ''no answer scripted'')),
          LogDebug ''no answer scripted'']"
proof -
  have g: "get_sessions (api alice) (remote sweep_ok)
             = (Inr [idle_session 1, idle_session 2], no_answers\<lparr>sc_close := [Inr (), Inr ()]\<rparr>)"
    by (simp add: alice_def scripted_api_def sweep_ok_def world_of_def no_answers_def
        next_answer_def)
  have p: "profile sweep_ok (get_session_key alice) = Some (stored_session 7)"
    by (simp add: sweep_ok_def world_of_def get_session_key_def alice_def)
  have i: "\<forall>s \<in> set [idle_session 1, idle_session 2]. rs_id s \<noteq> None"
    by (simp add: idle_session_def)
  have ok: "fst (close_unused_sessions alice sweep_ok) = Inr ()"
    by code_simp
  have f: "map rs_id (filter (\<lambda>s. rs_owner s = Some (username alice)
                                \<and> rs_id s \<noteq> s_id (stored_session 7)
                                \<and> rs_state s \<in> set unused_states)
                        [idle_session 1, idle_session 2]) = [Some 1, Some 2]"
    by (simp add: idle_session_def alice_def stored_session_def unused_states_def)
  have t: "closed_ids (trace sweep_ok) = []"
    by (simp add: sweep_ok_def world_of_def)
  have n: "get_sessions (api alice) (remote (world_of no_answers Map.empty))
             = (Inl (OtherException ''no answer scripted''), no_answers)"
    by (simp add: alice_def scripted_api_def world_of_def no_answers_def next_answer_def)
  have l: "lower (exn_str (OtherException ''no answer scripted'')) = ''no answer scripted''"
    by code_simp
  have t0: "trace (world_of no_answers Map.empty) = []"
    by (simp add: world_of_def)
  note T = close_unused_sessions_sweep
  have A: "closed_ids (trace (snd (close_unused_sessions alice sweep_ok))) = [Some 1, Some 2]"
    using T [where self = alice and w = sweep_ok, THEN conjunct2, THEN conjunct1, rule_format,
          OF conjI [OF g conjI [OF p conjI [OF i ok]]], unfolded f t]
    by simp
  have B: "fst (close_unused_sessions alice (world_of no_answers Map.empty)) = Inr ()
   \<and> trace (snd (close_unused_sessions alice (world_of no_answers Map.empty)))
       = [GetSessions (Inl (OtherException ''no answer scripted'')),
          LogDebug ''no answer scripted'']"
    using T [where self = alice and w = "world_of no_answers Map.empty",
          THEN conjunct1, rule_format, OF n, unfolded l t0]
    by simp
  from A B ok show ?thesis by simp
qed

subsection \<open>Jobs of a standalone session\<close>



end
